theory Spec2Isabelle
  imports Main "HOL-Library.AList"
begin

section \<open>The activities collection\<close>

text \<open>
  The service of \<^verbatim>\<open>src/app.py\<close> keeps no data of its own: every handler reads or writes
  the one collection \<^verbatim>\<open>activities_col\<close>. A stored document is a dictionary; the handlers
  read each of its fields with \<^verbatim>\<open>d.get(field, default)\<close>, so every field may be absent.
  A document is modelled as a record whose fields are optional (\<open>None\<close> is an absent key)
  and carry the types of the seed data: strings, an integer capacity and a list of emails.
\<close>

record activity =
  name :: "string option"
  description :: "string option"
  schedule :: "string option"
  max_participants :: "int option"
  participants :: "string list option"

text \<open>The collection is the sequence of its documents in the store's natural order.\<close>

type_synonym collection = "activity list"

subsection \<open>The driver operations the handlers call\<close>

text \<open>
  \<^verbatim>\<open>count_documents({})\<close> counts every document, \<^verbatim>\<open>insert_many\<close> adds the given
  documents after the stored ones, \<^verbatim>\<open>find_one({"name": n})\<close> returns the first document
  whose name equals \<open>n\<close> (or nothing), and \<^verbatim>\<open>update_one({"name": n}, u)\<close> applies the
  update \<open>u\<close> to that same first document and to no other. The store is one that
  answers: a driver call that raises because the store cannot be reached is not part of
  the model, and requests are served one at a time.
\<close>

definition count_documents :: "collection \<Rightarrow> nat" where
  "count_documents col = length col"

definition insert_many :: "activity list \<Rightarrow> collection \<Rightarrow> collection" where
  "insert_many docs col = col @ docs"

fun find_one :: "collection \<Rightarrow> string \<Rightarrow> activity option" where
  "find_one [] n = None"
| "find_one (d # ds) n = (if name d = Some n then Some d else find_one ds n)"

fun update_one :: "string \<Rightarrow> (activity \<Rightarrow> activity) \<Rightarrow> collection \<Rightarrow> collection" where
  "update_one n u [] = []"
| "update_one n u (d # ds) = (if name d = Some n then u d # ds else d # update_one n u ds)"

text \<open>
  The two update documents of the handlers. \<^verbatim>\<open>{"$push": {"participants": email}}\<close>
  appends the email to the array, creating the array when the field is absent;
  \<^verbatim>\<open>{"$pull": {"participants": email}}\<close> removes every element equal to the email and
  leaves an absent field absent.
\<close>

definition push :: "string \<Rightarrow> activity \<Rightarrow> activity" where
  "push email d =
     d\<lparr>participants := Some ((case participants d of None \<Rightarrow> [] | Some ps \<Rightarrow> ps) @ [email])\<rparr>"

definition pull :: "string \<Rightarrow> activity \<Rightarrow> activity" where
  "pull email d =
     d\<lparr>participants := map_option (filter (\<lambda>p. p \<noteq> email)) (participants d)\<rparr>"

subsection \<open>Seed data and the startup initializer\<close>

definition INITIAL_ACTIVITIES :: "activity list" where
  "INITIAL_ACTIVITIES = [
    \<lparr>name = Some ''Chess Club'',
     description = Some ''Learn strategies and compete in chess tournaments'',
     schedule = Some ''Fridays, 3:30 PM - 5:00 PM'',
     max_participants = Some 12,
     participants = Some [''michael@mergington.edu'', ''daniel@mergington.edu'']\<rparr>,
    \<lparr>name = Some ''Programming Class'',
     description = Some ''Learn programming fundamentals and build software projects'',
     schedule = Some ''Tuesdays and Thursdays, 3:30 PM - 4:30 PM'',
     max_participants = Some 20,
     participants = Some [''emma@mergington.edu'', ''sophia@mergington.edu'']\<rparr>,
    \<lparr>name = Some ''Gym Class'',
     description = Some ''Physical education and sports activities'',
     schedule = Some ''Mondays, Wednesdays, Fridays, 2:00 PM - 3:00 PM'',
     max_participants = Some 30,
     participants = Some [''john@mergington.edu'', ''olivia@mergington.edu'']\<rparr>,
    \<lparr>name = Some ''Soccer Team'',
     description = Some ''Join the school soccer team and compete in matches'',
     schedule = Some ''Tuesdays and Thursdays, 4:00 PM - 5:30 PM'',
     max_participants = Some 22,
     participants = Some [''liam@mergington.edu'', ''noah@mergington.edu'']\<rparr>,
    \<lparr>name = Some ''Basketball Team'',
     description = Some ''Practice and play basketball with the school team'',
     schedule = Some ''Wednesdays and Fridays, 3:30 PM - 5:00 PM'',
     max_participants = Some 15,
     participants = Some [''ava@mergington.edu'', ''mia@mergington.edu'']\<rparr>,
    \<lparr>name = Some ''Art Club'',
     description = Some ''Explore your creativity through painting and drawing'',
     schedule = Some ''Thursdays, 3:30 PM - 5:00 PM'',
     max_participants = Some 15,
     participants = Some [''amelia@mergington.edu'', ''harper@mergington.edu'']\<rparr>,
    \<lparr>name = Some ''Drama Club'',
     description = Some ''Act, direct, and produce plays and performances'',
     schedule = Some ''Mondays and Wednesdays, 4:00 PM - 5:30 PM'',
     max_participants = Some 20,
     participants = Some [''ella@mergington.edu'', ''scarlett@mergington.edu'']\<rparr>,
    \<lparr>name = Some ''Math Club'',
     description = Some ''Solve challenging problems and participate in math competitions'',
     schedule = Some ''Tuesdays, 3:30 PM - 4:30 PM'',
     max_participants = Some 10,
     participants = Some [''james@mergington.edu'', ''benjamin@mergington.edu'']\<rparr>,
    \<lparr>name = Some ''Debate Team'',
     description = Some ''Develop public speaking and argumentation skills'',
     schedule = Some ''Fridays, 4:00 PM - 5:30 PM'',
     max_participants = Some 12,
     participants = Some [''charlotte@mergington.edu'', ''henry@mergington.edu'']\<rparr>]"

definition seed_activities_if_empty :: "collection \<Rightarrow> collection" where
  "seed_activities_if_empty col =
     (if count_documents col = 0 then insert_many INITIAL_ACTIVITIES col else col)"

subsection \<open>Listing the activities\<close>

text \<open>
  One entry of the response of \<^verbatim>\<open>GET /activities\<close>: the dictionary with the four keys
  that \<^verbatim>\<open>get_activities\<close> builds for a document.
\<close>

record activity_info =
  info_description :: string
  info_schedule :: string
  info_max_participants :: int
  info_participants :: "string list"

definition get_description :: "activity \<Rightarrow> string" where
  "get_description d = (case description d of None \<Rightarrow> [] | Some v \<Rightarrow> v)"

definition get_schedule :: "activity \<Rightarrow> string" where
  "get_schedule d = (case schedule d of None \<Rightarrow> [] | Some v \<Rightarrow> v)"

definition get_max_participants :: "activity \<Rightarrow> int" where
  "get_max_participants d = (case max_participants d of None \<Rightarrow> 0 | Some v \<Rightarrow> v)"

definition get_participants :: "activity \<Rightarrow> string list" where
  "get_participants d = (case participants d of None \<Rightarrow> [] | Some v \<Rightarrow> v)"

definition info_of :: "activity \<Rightarrow> activity_info" where
  "info_of d =
     \<lparr>info_description = get_description d,
      info_schedule = get_schedule d,
      info_max_participants = get_max_participants d,
      info_participants = get_participants d\<rparr>"

text \<open>
  The loop of \<^verbatim>\<open>get_activities\<close> over the documents. The result is a Python dictionary:
  assigning to a key that is present replaces its value in place, assigning to a new key
  adds it at the end, which is what \<open>AList.update\<close> does on an association list.
  \<^verbatim>\<open>if not name: continue\<close> skips a document whose name is absent or the empty string.
\<close>

fun get_activities_loop ::
  "activity list \<Rightarrow> (string \<times> activity_info) list \<Rightarrow> (string \<times> activity_info) list" where
  "get_activities_loop [] result = result"
| "get_activities_loop (d # docs) result =
     (case name d of
        None \<Rightarrow> get_activities_loop docs result
      | Some n \<Rightarrow>
          if n = [] then get_activities_loop docs result
          else get_activities_loop docs (AList.update n (info_of d) result))"

definition get_activities :: "collection \<Rightarrow> (string \<times> activity_info) list" where
  "get_activities col = get_activities_loop col []"

subsection \<open>Signing up and unregistering\<close>

text \<open>
  \<^verbatim>\<open>raise HTTPException(status_code=..., detail=...)\<close> is the left summand of the result,
  the returned \<^verbatim>\<open>{"message": ...}\<close> the right one (its one string). A handler takes the
  collection and returns it beside the result, so that what a request wrote, or did not
  write, is part of what it returns. A document that \<^verbatim>\<open>find_one\<close> returns has its name
  at least, so \<^verbatim>\<open>if not activity\<close> holds exactly when nothing was found.
\<close>

datatype http_exception = HTTPException (status_code: int) (detail: string)

type_synonym response = "http_exception + string"

definition signup_for_activity :: "string \<Rightarrow> string \<Rightarrow> collection \<Rightarrow> response \<times> collection" where
  "signup_for_activity activity_name email col =
     (case find_one col activity_name of
        None \<Rightarrow> (Inl (HTTPException 404 ''Activity not found''), col)
      | Some activity \<Rightarrow>
          if email \<in> set (get_participants activity)
          then (Inl (HTTPException 400 ''Student is already signed up''), col)
          else if int (length (get_participants activity)) \<ge> get_max_participants activity
          then (Inl (HTTPException 400 ''No spots available''), col)
          else (Inr (''Signed up '' @ email @ '' for '' @ activity_name),
                update_one activity_name (push email) col))"

definition unregister_from_activity :: "string \<Rightarrow> string \<Rightarrow> collection \<Rightarrow> response \<times> collection" where
  "unregister_from_activity activity_name email col =
     (case find_one col activity_name of
        None \<Rightarrow> (Inl (HTTPException 404 ''Activity not found''), col)
      | Some activity \<Rightarrow>
          if email \<notin> set (get_participants activity)
          then (Inl (HTTPException 400 ''Student is not signed up for this activity''), col)
          else (Inr (''Unregistered '' @ email @ '' from '' @ activity_name),
                update_one activity_name (pull email) col))"

subsection \<open>Sequences of requests\<close>

text \<open>
  The two routes that write: \<^verbatim>\<open>POST /activities/{activity_name}/signup\<close> and
  \<^verbatim>\<open>DELETE /activities/{activity_name}/unregister\<close>, each with the activity name of the
  path and the email of the query. Requests served one after the other pass the
  collection along; a failed request passes on the collection it returned.
\<close>

datatype request = Signup string string | Unregister string string

fun handle :: "request \<Rightarrow> collection \<Rightarrow> response \<times> collection" where
  "handle (Signup activity_name email) col = signup_for_activity activity_name email col"
| "handle (Unregister activity_name email) col = unregister_from_activity activity_name email col"

fun run :: "request list \<Rightarrow> collection \<Rightarrow> collection" where
  "run [] col = col"
| "run (r # rs) col = run rs (snd (handle r col))"

subsection \<open>The two invariants of the data model\<close>

definition no_duplicates :: "collection \<Rightarrow> bool" where
  "no_duplicates col = (\<forall>d \<in> set col. distinct (get_participants d))"

definition within_capacity :: "collection \<Rightarrow> bool" where
  "within_capacity col =
     (\<forall>d \<in> set col. int (length (get_participants d)) \<le> get_max_participants d)"

subsection \<open>The catalog as the specification prints it\<close>

text \<open>
  The table of section 4.2 of the specification (name, schedule, capacity, seeded
  participants) and its list of descriptions, transcribed from the specification and not
  from the source, to be compared with \<open>INITIAL_ACTIVITIES\<close>.
\<close>

definition catalog_table :: "(string \<times> string \<times> int \<times> string list) list" where
  "catalog_table = [
    (''Chess Club'', ''Fridays, 3:30 PM - 5:00 PM'', 12, [''michael@mergington.edu'', ''daniel@mergington.edu'']),
    (''Programming Class'', ''Tuesdays and Thursdays, 3:30 PM - 4:30 PM'', 20, [''emma@mergington.edu'', ''sophia@mergington.edu'']),
    (''Gym Class'', ''Mondays, Wednesdays, Fridays, 2:00 PM - 3:00 PM'', 30, [''john@mergington.edu'', ''olivia@mergington.edu'']),
    (''Soccer Team'', ''Tuesdays and Thursdays, 4:00 PM - 5:30 PM'', 22, [''liam@mergington.edu'', ''noah@mergington.edu'']),
    (''Basketball Team'', ''Wednesdays and Fridays, 3:30 PM - 5:00 PM'', 15, [''ava@mergington.edu'', ''mia@mergington.edu'']),
    (''Art Club'', ''Thursdays, 3:30 PM - 5:00 PM'', 15, [''amelia@mergington.edu'', ''harper@mergington.edu'']),
    (''Drama Club'', ''Mondays and Wednesdays, 4:00 PM - 5:30 PM'', 20, [''ella@mergington.edu'', ''scarlett@mergington.edu'']),
    (''Math Club'', ''Tuesdays, 3:30 PM - 4:30 PM'', 10, [''james@mergington.edu'', ''benjamin@mergington.edu'']),
    (''Debate Team'', ''Fridays, 4:00 PM - 5:30 PM'', 12, [''charlotte@mergington.edu'', ''henry@mergington.edu''])]"

definition catalog_descriptions :: "(string \<times> string) list" where
  "catalog_descriptions = [
    (''Chess Club'', ''Learn strategies and compete in chess tournaments''),
    (''Programming Class'', ''Learn programming fundamentals and build software projects''),
    (''Gym Class'', ''Physical education and sports activities''),
    (''Soccer Team'', ''Join the school soccer team and compete in matches''),
    (''Basketball Team'', ''Practice and play basketball with the school team''),
    (''Art Club'', ''Explore your creativity through painting and drawing''),
    (''Drama Club'', ''Act, direct, and produce plays and performances''),
    (''Math Club'', ''Solve challenging problems and participate in math competitions''),
    (''Debate Team'', ''Develop public speaking and argumentation skills'')]"

definition catalog_activity :: "string \<times> string \<times> int \<times> string list \<Rightarrow> activity" where
  "catalog_activity row =
     (case row of (n, sched, cap, emails) \<Rightarrow>
        \<lparr>name = Some n,
         description = map_of catalog_descriptions n,
         schedule = Some sched,
         max_participants = Some cap,
         participants = Some emails\<rparr>)"

definition catalog :: "activity list" where
  "catalog = map catalog_activity catalog_table"

section \<open>Facts about the driver operations\<close>

lemma find_one_name: "find_one col n = Some a \<Longrightarrow> name a = Some n"
  by (induction col) (auto split: if_splits)

lemma find_one_mem: "find_one col n = Some a \<Longrightarrow> a \<in> set col"
  by (induction col) (auto split: if_splits)

lemma find_one_split:
  "find_one col n = Some a \<Longrightarrow>
     \<exists>pre post. col = pre @ a # post \<and> (\<forall>d \<in> set pre. name d \<noteq> Some n)"
proof (induction col)
  case Nil
  then show ?case by simp
next
  case (Cons d ds)
  show ?case
  proof (cases "name d = Some n")
    case True
    with Cons.prems have "d # ds = [] @ a # ds" by simp
    then show ?thesis by (metis empty_iff list.set(1))
  next
    case False
    with Cons obtain pre post where
      "ds = pre @ a # post" "\<forall>x \<in> set pre. name x \<noteq> Some n" by auto
    with False have "d # ds = (d # pre) @ a # post \<and> (\<forall>x \<in> set (d # pre). name x \<noteq> Some n)"
      by simp
    then show ?thesis by blast
  qed
qed

lemma find_one_at:
  "\<forall>d \<in> set pre. name d \<noteq> Some n \<Longrightarrow> name a = Some n \<Longrightarrow>
     find_one (pre @ a # post) n = Some a"
  by (induction pre) auto

lemma update_one_at:
  "\<forall>d \<in> set pre. name d \<noteq> Some n \<Longrightarrow> name a = Some n \<Longrightarrow>
     update_one n u (pre @ a # post) = pre @ u a # post"
  by (induction pre) auto

lemma find_one_append:
  "find_one (xs @ ys) n = (case find_one xs n of None \<Rightarrow> find_one ys n | Some d \<Rightarrow> Some d)"
  by (induction xs) auto

lemma name_push [simp]: "name (push e d) = name d"
  by (simp add: push_def)

lemma name_pull [simp]: "name (pull e d) = name d"
  by (simp add: pull_def)

lemma get_participants_push [simp]:
  "get_participants (push e d) = get_participants d @ [e]"
  by (simp add: push_def get_participants_def)

lemma get_participants_pull [simp]:
  "get_participants (pull e d) = filter (\<lambda>p. p \<noteq> e) (get_participants d)"
  by (cases "participants d") (simp_all add: pull_def get_participants_def)

lemma get_participants_update [simp]:
  "get_participants (d\<lparr>participants := Some ps\<rparr>) = ps"
  by (simp add: get_participants_def)

lemma get_max_participants_push [simp]:
  "get_max_participants (push e d) = get_max_participants d"
  by (simp add: push_def get_max_participants_def)

lemma get_max_participants_pull [simp]:
  "get_max_participants (pull e d) = get_max_participants d"
  by (simp add: pull_def get_max_participants_def)

lemma push_eq: "push e d = d\<lparr>participants := Some (get_participants d @ [e])\<rparr>"
  by (simp add: push_def get_participants_def)

lemma pull_eq:
  "e \<in> set (get_participants d) \<Longrightarrow>
     pull e d = d\<lparr>participants := Some (filter (\<lambda>p. p \<noteq> e) (get_participants d))\<rparr>"
  by (cases "participants d") (simp_all add: pull_def get_participants_def)

section \<open>Order of the signup checks\<close>

text \<open>
  C1. When the named activity exists, the email is already among its participants and
  the activity is full, signup fails with status 400 and detail
  "Student is already signed up", not with "No spots available", and writes nothing:
  the duplicate check comes before the capacity check.
\<close>

theorem signup_duplicate_before_capacity:
  assumes "find_one col activity_name = Some activity"
    and "email \<in> set (get_participants activity)"
    and "int (length (get_participants activity)) \<ge> get_max_participants activity"
  shows "signup_for_activity activity_name email col =
           (Inl (HTTPException 400 ''Student is already signed up''), col) \<and>
         fst (signup_for_activity activity_name email col) \<noteq>
           Inl (HTTPException 400 ''No spots available'')"
  using assms by (simp add: signup_for_activity_def)

text \<open>
  An activity of capacity 1 whose one participant signs up again.
\<close>

theorem signup_duplicate_before_capacity_witness:
  "signup_for_activity ''Chess Club'' ''michael@mergington.edu''
     [\<lparr>name = Some ''Chess Club'', description = None, schedule = None,
       max_participants = Some 1, participants = Some [''michael@mergington.edu'']\<rparr>] =
   (Inl (HTTPException 400 ''Student is already signed up''),
     [\<lparr>name = Some ''Chess Club'', description = None, schedule = None,
       max_participants = Some 1, participants = Some [''michael@mergington.edu'']\<rparr>])"
proof -
  let ?a = "\<lparr>name = Some ''Chess Club'', description = None, schedule = None,
       max_participants = Some 1, participants = Some [''michael@mergington.edu'']\<rparr>"
  have h1: "find_one [?a] ''Chess Club'' = Some ?a" by simp
  have h2: "''michael@mergington.edu'' \<in> set (get_participants ?a)"
    by (simp add: get_participants_def)
  have h3: "int (length (get_participants ?a)) \<ge> get_max_participants ?a"
    by (simp add: get_participants_def get_max_participants_def)
  from signup_duplicate_before_capacity [OF h1 h2 h3] show ?thesis by (rule conjunct1)
qed

section \<open>A successful signup\<close>

text \<open>
  C2. When the named activity exists, the email is not among its participants and the
  number of participants is strictly below the capacity, signup returns the message
  "Signed up {email} for {activity_name}" and the collection in which that activity (the
  first document of that name) has the email appended at the end of its participants;
  the documents before and after it are the same, and reading the activity again gives
  the extended list.
\<close>

theorem signup_appends_email:
  assumes "find_one col activity_name = Some activity"
    and "email \<notin> set (get_participants activity)"
    and "int (length (get_participants activity)) < get_max_participants activity"
  shows "\<exists>pre post.
           col = pre @ activity # post \<and>
           find_one pre activity_name = None \<and>
           signup_for_activity activity_name email col =
             (Inr (''Signed up '' @ email @ '' for '' @ activity_name),
              pre @ activity\<lparr>participants := Some (get_participants activity @ [email])\<rparr> # post) \<and>
           find_one (snd (signup_for_activity activity_name email col)) activity_name =
             Some (activity\<lparr>participants := Some (get_participants activity @ [email])\<rparr>)"
proof -
  from assms(1) obtain pre post where
    col: "col = pre @ activity # post" and pre: "\<forall>d \<in> set pre. name d \<noteq> Some activity_name"
    using find_one_split by blast
  have nm: "name activity = Some activity_name"
    using assms(1) by (rule find_one_name)
  have none: "find_one pre activity_name = None"
    using pre by (induction pre) auto
  have upd: "update_one activity_name (push email) col = pre @ push email activity # post"
    unfolding col using pre nm by (rule update_one_at)
  have res: "signup_for_activity activity_name email col =
      (Inr (''Signed up '' @ email @ '' for '' @ activity_name),
       pre @ activity\<lparr>participants := Some (get_participants activity @ [email])\<rparr> # post)"
    using assms upd by (simp add: signup_for_activity_def push_eq)
  have "name (push email activity) = Some activity_name"
    using nm by simp
  with pre have "find_one (pre @ push email activity # post) activity_name =
      Some (push email activity)"
    by (rule find_one_at)
  then have again: "find_one (snd (signup_for_activity activity_name email col)) activity_name =
      Some (activity\<lparr>participants := Some (get_participants activity @ [email])\<rparr>)"
    using res by (simp add: push_eq)
  from col none res again show ?thesis by blast
qed

text \<open>
  The third testable property of the specification: alice signs up for the seeded Chess
  Club.
\<close>

theorem signup_appends_email_witness:
  "signup_for_activity ''Chess Club'' ''alice@mergington.edu'' INITIAL_ACTIVITIES =
     (Inr ''Signed up alice@mergington.edu for Chess Club'',
      (hd INITIAL_ACTIVITIES)\<lparr>participants :=
          Some [''michael@mergington.edu'', ''daniel@mergington.edu'', ''alice@mergington.edu'']\<rparr>
        # tl INITIAL_ACTIVITIES)"
proof -
  let ?a = "hd INITIAL_ACTIVITIES"
  have h1: "find_one INITIAL_ACTIVITIES ''Chess Club'' = Some ?a"
    by (simp add: INITIAL_ACTIVITIES_def)
  have ps: "get_participants ?a = [''michael@mergington.edu'', ''daniel@mergington.edu'']"
    by (simp add: INITIAL_ACTIVITIES_def get_participants_def)
  have h2: "''alice@mergington.edu'' \<notin> set (get_participants ?a)"
    unfolding ps by simp
  have h3: "int (length (get_participants ?a)) < get_max_participants ?a"
    unfolding ps by (simp add: INITIAL_ACTIVITIES_def get_max_participants_def)
  from signup_appends_email [OF h1 h2 h3] obtain pre post where
    col: "INITIAL_ACTIVITIES = pre @ ?a # post" and
    none: "find_one pre ''Chess Club'' = None" and
    res: "signup_for_activity ''Chess Club'' ''alice@mergington.edu'' INITIAL_ACTIVITIES =
      (Inr (''Signed up '' @ ''alice@mergington.edu'' @ '' for '' @ ''Chess Club''),
       pre @ ?a\<lparr>participants := Some (get_participants ?a @ [''alice@mergington.edu''])\<rparr> # post)"
    by blast
  have "pre = []"
  proof (cases pre)
    case Nil
    then show ?thesis .
  next
    case (Cons d ds)
    with col have "d = ?a" by (metis append_Cons list.sel(1))
    with none Cons h1 have False
      by (simp add: INITIAL_ACTIVITIES_def)
    then show ?thesis ..
  qed
  with col have "post = tl INITIAL_ACTIVITIES" by (metis append_Nil list.sel(3))
  with res \<open>pre = []\<close> ps show ?thesis by simp
qed

section \<open>Unregistering\<close>

text \<open>
  C3. The three outcomes of an unregister request. No activity of the given name: status
  404 with detail "Activity not found". The activity exists and the email is not among
  its participants: status 400 with detail "Student is not signed up for this activity".
  Otherwise the message "Unregistered {email} from {activity_name}" is returned and the
  activity (the first document of that name) keeps its participants other than the
  email, in their order; the email is no longer among them and the other documents are
  the same.
\<close>

theorem unregister_outcomes:
  "(find_one col activity_name = None \<longrightarrow>
      unregister_from_activity activity_name email col =
        (Inl (HTTPException 404 ''Activity not found''), col)) \<and>
   (\<forall>activity. find_one col activity_name = Some activity \<and>
        email \<notin> set (get_participants activity) \<longrightarrow>
      unregister_from_activity activity_name email col =
        (Inl (HTTPException 400 ''Student is not signed up for this activity''), col)) \<and>
   (\<forall>activity. find_one col activity_name = Some activity \<and>
        email \<in> set (get_participants activity) \<longrightarrow>
      (\<exists>pre post remaining.
          col = pre @ activity # post \<and>
          find_one pre activity_name = None \<and>
          remaining = filter (\<lambda>p. p \<noteq> email) (get_participants activity) \<and>
          email \<notin> set remaining \<and>
          unregister_from_activity activity_name email col =
            (Inr (''Unregistered '' @ email @ '' from '' @ activity_name),
             pre @ activity\<lparr>participants := Some remaining\<rparr> # post)))"
proof (intro conjI allI impI)
  assume "find_one col activity_name = None"
  then show "unregister_from_activity activity_name email col =
      (Inl (HTTPException 404 ''Activity not found''), col)"
    by (simp add: unregister_from_activity_def)
next
  fix activity
  assume "find_one col activity_name = Some activity \<and> email \<notin> set (get_participants activity)"
  then show "unregister_from_activity activity_name email col =
      (Inl (HTTPException 400 ''Student is not signed up for this activity''), col)"
    by (simp add: unregister_from_activity_def)
next
  fix activity
  assume a: "find_one col activity_name = Some activity \<and> email \<in> set (get_participants activity)"
  then obtain pre post where
    col: "col = pre @ activity # post" and pre: "\<forall>d \<in> set pre. name d \<noteq> Some activity_name"
    using find_one_split by blast
  have nm: "name activity = Some activity_name"
    using a find_one_name by blast
  have none: "find_one pre activity_name = None"
    using pre by (induction pre) auto
  have upd: "update_one activity_name (pull email) col = pre @ pull email activity # post"
    unfolding col using pre nm by (rule update_one_at)
  have res: "unregister_from_activity activity_name email col =
      (Inr (''Unregistered '' @ email @ '' from '' @ activity_name),
       pre @ activity\<lparr>participants :=
           Some (filter (\<lambda>p. p \<noteq> email) (get_participants activity))\<rparr> # post)"
    using a upd by (simp add: unregister_from_activity_def pull_eq)
  have gone: "email \<notin> set (filter (\<lambda>p. p \<noteq> email) (get_participants activity))"
    by simp
  from col none res gone
  show "\<exists>pre post remaining.
          col = pre @ activity # post \<and>
          find_one pre activity_name = None \<and>
          remaining = filter (\<lambda>p. p \<noteq> email) (get_participants activity) \<and>
          email \<notin> set remaining \<and>
          unregister_from_activity activity_name email col =
            (Inr (''Unregistered '' @ email @ '' from '' @ activity_name),
             pre @ activity\<lparr>participants := Some remaining\<rparr> # post)"
    by blast
qed

text \<open>
  The three outcomes on the seeded collection: an unknown activity, a student who is not
  in the Math Club, and james, who is.
\<close>

theorem unregister_outcomes_witness:
  "unregister_from_activity ''Rowing'' ''james@mergington.edu'' INITIAL_ACTIVITIES =
     (Inl (HTTPException 404 ''Activity not found''), INITIAL_ACTIVITIES) \<and>
   unregister_from_activity ''Math Club'' ''bob@mergington.edu'' INITIAL_ACTIVITIES =
     (Inl (HTTPException 400 ''Student is not signed up for this activity''),
      INITIAL_ACTIVITIES) \<and>
   fst (unregister_from_activity ''Math Club'' ''james@mergington.edu'' INITIAL_ACTIVITIES) =
     Inr ''Unregistered james@mergington.edu from Math Club'' \<and>
   map_option get_participants
     (find_one (snd (unregister_from_activity ''Math Club'' ''james@mergington.edu''
        INITIAL_ACTIVITIES)) ''Math Club'') = Some [''benjamin@mergington.edu'']"
proof -
  let ?m = "INITIAL_ACTIVITIES ! 7"
  have n: "find_one INITIAL_ACTIVITIES ''Rowing'' = None"
    by (simp add: INITIAL_ACTIVITIES_def)
  have f: "find_one INITIAL_ACTIVITIES ''Math Club'' = Some ?m"
    by (simp add: INITIAL_ACTIVITIES_def)
  have ps: "get_participants ?m = [''james@mergington.edu'', ''benjamin@mergington.edu'']"
    by (simp add: INITIAL_ACTIVITIES_def get_participants_def)
  have bob: "''bob@mergington.edu'' \<notin> set (get_participants ?m)"
    unfolding ps by simp
  have james: "''james@mergington.edu'' \<in> set (get_participants ?m)"
    unfolding ps by simp
  note u = unregister_outcomes [of INITIAL_ACTIVITIES "''Math Club''"]
  have 1: "unregister_from_activity ''Rowing'' ''james@mergington.edu'' INITIAL_ACTIVITIES =
     (Inl (HTTPException 404 ''Activity not found''), INITIAL_ACTIVITIES)"
    using unregister_outcomes [of INITIAL_ACTIVITIES "''Rowing''" "''james@mergington.edu''"] n
    by blast
  have 2: "unregister_from_activity ''Math Club'' ''bob@mergington.edu'' INITIAL_ACTIVITIES =
     (Inl (HTTPException 400 ''Student is not signed up for this activity''),
      INITIAL_ACTIVITIES)"
    using u [of "''bob@mergington.edu''"] f bob by blast
  obtain pre post where
    none: "find_one pre ''Math Club'' = None" and
    res: "unregister_from_activity ''Math Club'' ''james@mergington.edu'' INITIAL_ACTIVITIES =
      (Inr (''Unregistered '' @ ''james@mergington.edu'' @ '' from '' @ ''Math Club''),
       pre @ ?m\<lparr>participants := Some (filter (\<lambda>p. p \<noteq> ''james@mergington.edu'')
          (get_participants ?m))\<rparr> # post)"
    using u [of "''james@mergington.edu''"] f james by blast
  have nm: "name ?m = Some ''Math Club''"
    using f by (rule find_one_name)
  have 3: "fst (unregister_from_activity ''Math Club'' ''james@mergington.edu''
      INITIAL_ACTIVITIES) = Inr ''Unregistered james@mergington.edu from Math Club''"
    unfolding res by simp
  have 4: "map_option get_participants
     (find_one (snd (unregister_from_activity ''Math Club'' ''james@mergington.edu''
        INITIAL_ACTIVITIES)) ''Math Club'') = Some [''benjamin@mergington.edu'']"
    unfolding res using none nm by (simp add: find_one_append ps)
  from 1 2 3 4 show ?thesis by blast
qed

section \<open>Failed requests write nothing\<close>

text \<open>
  C4. A signup or unregister request that fails (the handler raises its 404 or one of
  its 400 errors, the only errors it raises) leaves the collection as it was: every
  document, with every field, is the same.
\<close>

theorem failed_request_writes_nothing:
  "(\<forall>e. fst (signup_for_activity activity_name email col) = Inl e \<longrightarrow>
      (status_code e = 404 \<or> status_code e = 400) \<and>
      snd (signup_for_activity activity_name email col) = col) \<and>
   (\<forall>e. fst (unregister_from_activity activity_name email col) = Inl e \<longrightarrow>
      (status_code e = 404 \<or> status_code e = 400) \<and>
      snd (unregister_from_activity activity_name email col) = col)"
  by (auto simp: signup_for_activity_def unregister_from_activity_def
      split: option.splits if_splits)

text \<open>
  On the seeded collection: signing michael up for the Chess Club again, and
  unregistering from an activity that does not exist.
\<close>

theorem failed_request_writes_nothing_witness:
  "fst (signup_for_activity ''Chess Club'' ''michael@mergington.edu'' INITIAL_ACTIVITIES) =
     Inl (HTTPException 400 ''Student is already signed up'') \<and>
   snd (signup_for_activity ''Chess Club'' ''michael@mergington.edu'' INITIAL_ACTIVITIES) =
     INITIAL_ACTIVITIES \<and>
   fst (unregister_from_activity ''Rowing'' ''michael@mergington.edu'' INITIAL_ACTIVITIES) =
     Inl (HTTPException 404 ''Activity not found'') \<and>
   snd (unregister_from_activity ''Rowing'' ''michael@mergington.edu'' INITIAL_ACTIVITIES) =
     INITIAL_ACTIVITIES"
proof -
  have s: "fst (signup_for_activity ''Chess Club'' ''michael@mergington.edu''
      INITIAL_ACTIVITIES) = Inl (HTTPException 400 ''Student is already signed up'')"
    by (simp add: signup_for_activity_def INITIAL_ACTIVITIES_def get_participants_def)
  have u: "fst (unregister_from_activity ''Rowing'' ''michael@mergington.edu''
      INITIAL_ACTIVITIES) = Inl (HTTPException 404 ''Activity not found'')"
    by (simp add: unregister_from_activity_def INITIAL_ACTIVITIES_def)
  from s u
    failed_request_writes_nothing [of "''Chess Club''" "''michael@mergington.edu''"
      INITIAL_ACTIVITIES]
    failed_request_writes_nothing [of "''Rowing''" "''michael@mergington.edu''"
      INITIAL_ACTIVITIES]
  show ?thesis by blast
qed

section \<open>Seeding\<close>

text \<open>
  C5. The initializer inserts the seed data exactly when the collection holds no
  document: an empty collection becomes the seed data, a collection with documents is
  returned as it is, the collection changes only in the first case, and running the
  initializer any number of times on a collection with documents, or once more after it
  has run, changes nothing.
\<close>

theorem seed_exactly_when_empty:
  "(count_documents col = 0 \<longrightarrow> seed_activities_if_empty col = INITIAL_ACTIVITIES) \<and>
   (count_documents col \<noteq> 0 \<longrightarrow>
      seed_activities_if_empty col = col \<and> (seed_activities_if_empty ^^ k) col = col) \<and>
   (seed_activities_if_empty col \<noteq> col \<longleftrightarrow> count_documents col = 0) \<and>
   seed_activities_if_empty (seed_activities_if_empty col) = seed_activities_if_empty col"
proof -
  have ne: "INITIAL_ACTIVITIES \<noteq> []"
    by (simp add: INITIAL_ACTIVITIES_def)
  have keep: "seed_activities_if_empty c = c" if "c \<noteq> []" for c
    using that by (simp add: seed_activities_if_empty_def count_documents_def)
  have fill: "seed_activities_if_empty [] = INITIAL_ACTIVITIES"
    by (simp add: seed_activities_if_empty_def count_documents_def insert_many_def)
  have many: "(seed_activities_if_empty ^^ k) c = c" if "c \<noteq> []" for c
    using that by (induction k) (simp_all add: keep)
  show ?thesis
  proof (cases "col = []")
    case True
    with ne fill keep [of INITIAL_ACTIVITIES] show ?thesis
      by (simp add: count_documents_def)
  next
    case False
    with keep [of col] many [of col] show ?thesis
      by (simp add: count_documents_def)
  qed
qed

text \<open>
  The first start on an empty store, a second start after it, and three starts on the
  seeded store.
\<close>

theorem seed_exactly_when_empty_witness:
  "count_documents [] = 0 \<and> count_documents INITIAL_ACTIVITIES = 9 \<and>
   seed_activities_if_empty [] = INITIAL_ACTIVITIES \<and>
   seed_activities_if_empty (seed_activities_if_empty []) = INITIAL_ACTIVITIES \<and>
   seed_activities_if_empty INITIAL_ACTIVITIES = INITIAL_ACTIVITIES \<and>
   (seed_activities_if_empty ^^ 3) INITIAL_ACTIVITIES = INITIAL_ACTIVITIES"
proof -
  have e: "count_documents [] = 0"
    by (simp add: count_documents_def)
  have n: "count_documents INITIAL_ACTIVITIES = 9"
    by (simp add: count_documents_def INITIAL_ACTIVITIES_def)
  from n have n0: "count_documents INITIAL_ACTIVITIES \<noteq> 0" by simp
  from e n n0 seed_exactly_when_empty [of "[]" 0] seed_exactly_when_empty [of INITIAL_ACTIVITIES 3]
  show ?thesis by metis
qed

text \<open>
  C6. The seed data of the source is the catalog of the specification: the nine rows of
  its table in their order, each with the name, the schedule, the capacity and the two
  emails of the row and with the description listed for that name. Its first document
  is the Chess Club with capacity 12 and participants michael and daniel.
\<close>

theorem seed_data_is_catalog:
  "INITIAL_ACTIVITIES = catalog \<and>
   length INITIAL_ACTIVITIES = 9 \<and>
   map name INITIAL_ACTIVITIES =
     [Some ''Chess Club'', Some ''Programming Class'', Some ''Gym Class'', Some ''Soccer Team'',
      Some ''Basketball Team'', Some ''Art Club'', Some ''Drama Club'', Some ''Math Club'',
      Some ''Debate Team''] \<and>
   list_all (\<lambda>d. length (get_participants d) = 2) INITIAL_ACTIVITIES \<and>
   hd INITIAL_ACTIVITIES =
     \<lparr>name = Some ''Chess Club'',
      description = Some ''Learn strategies and compete in chess tournaments'',
      schedule = Some ''Fridays, 3:30 PM - 5:00 PM'',
      max_participants = Some 12,
      participants = Some [''michael@mergington.edu'', ''daniel@mergington.edu'']\<rparr>"
proof -
  have 1: "INITIAL_ACTIVITIES = catalog"
    by (simp add: INITIAL_ACTIVITIES_def catalog_def catalog_table_def catalog_activity_def
        catalog_descriptions_def)
  have 2: "length INITIAL_ACTIVITIES = 9"
    by (simp add: INITIAL_ACTIVITIES_def)
  have 3: "map name INITIAL_ACTIVITIES =
     [Some ''Chess Club'', Some ''Programming Class'', Some ''Gym Class'', Some ''Soccer Team'',
      Some ''Basketball Team'', Some ''Art Club'', Some ''Drama Club'', Some ''Math Club'',
      Some ''Debate Team'']"
    by (simp add: INITIAL_ACTIVITIES_def)
  have 4: "list_all (\<lambda>d. length (get_participants d) = 2) INITIAL_ACTIVITIES"
    by (simp add: INITIAL_ACTIVITIES_def get_participants_def)
  have 5: "hd INITIAL_ACTIVITIES =
     \<lparr>name = Some ''Chess Club'',
      description = Some ''Learn strategies and compete in chess tournaments'',
      schedule = Some ''Fridays, 3:30 PM - 5:00 PM'',
      max_participants = Some 12,
      participants = Some [''michael@mergington.edu'', ''daniel@mergington.edu'']\<rparr>"
    by (simp add: INITIAL_ACTIVITIES_def)
  from 1 2 3 4 5 show ?thesis by blast
qed

section \<open>Listing the activities\<close>

lemma find_one_None_iff: "find_one col n = None \<longleftrightarrow> Some n \<notin> name ` set col"
  by (induction col) auto

lemma loop_skips_unnamed:
  "get_activities_loop (filter (\<lambda>d. name d \<noteq> None \<and> name d \<noteq> Some []) docs) result =
     get_activities_loop docs result"
  by (induction docs arbitrary: result) (auto split: option.splits)

lemma loop_distinct:
  "distinct (map fst result) \<Longrightarrow> distinct (map fst (get_activities_loop docs result))"
proof (induction docs arbitrary: result)
  case Nil
  then show ?case by simp
next
  case (Cons d docs)
  show ?case
  proof (cases "name d")
    case None
    with Cons show ?thesis by simp
  next
    case (Some n)
    from Cons.prems have "distinct (map fst (AList.update n (info_of d) result))"
      by (rule distinct_update)
    with Cons Some show ?thesis by simp
  qed
qed

lemma loop_lookup:
  "map_of (get_activities_loop docs result) n =
     (if n = [] then map_of result n
      else case find_one (rev docs) n of
             None \<Rightarrow> map_of result n
           | Some d \<Rightarrow> Some (info_of d))"
proof (induction docs arbitrary: result)
  case Nil
  then show ?case by simp
next
  case (Cons d docs)
  show ?case
  proof (cases "name d")
    case None
    with Cons show ?thesis
      by (simp add: find_one_append split: option.splits)
  next
    case (Some m)
    show ?thesis
    proof (cases "m = []")
      case True
      with Some Cons show ?thesis
        by (auto simp: find_one_append split: option.splits)
    next
      case False
      with Some Cons show ?thesis
        by (auto simp: find_one_append update_conv' split: option.splits)
    qed
  qed
qed

text \<open>
  C7. For every collection, the result of listing the activities is a mapping (no key
  twice) whose keys are the non-empty names of the stored documents. The entry of a name
  is built from a stored document of that name (the last one, as a dictionary keeps the
  last assignment) and has the four fields description, schedule, max_participants and
  participants, each the document's value or, when the document lacks the field, the
  empty string, the empty string, 0 and the empty list. Documents whose name is absent
  or empty are omitted: the result is the same without them, and the empty string is no
  key.
\<close>

theorem get_activities_mapping:
  "distinct (map fst (get_activities col)) \<and>
   set (map fst (get_activities col)) = {n. n \<noteq> [] \<and> Some n \<in> name ` set col} \<and>
   map_of (get_activities col) n =
     (if n = [] then None else map_option info_of (find_one (rev col) n)) \<and>
   get_activities (filter (\<lambda>d. name d \<noteq> None \<and> name d \<noteq> Some []) col) = get_activities col \<and>
   info_of d =
     \<lparr>info_description = (case description d of None \<Rightarrow> [] | Some v \<Rightarrow> v),
      info_schedule = (case schedule d of None \<Rightarrow> [] | Some v \<Rightarrow> v),
      info_max_participants = (case max_participants d of None \<Rightarrow> 0 | Some v \<Rightarrow> v),
      info_participants = (case participants d of None \<Rightarrow> [] | Some v \<Rightarrow> v)\<rparr>"
proof -
  have look: "map_of (get_activities col) m =
      (if m = [] then None else map_option info_of (find_one (rev col) m))" for m
    by (simp add: get_activities_def loop_lookup split: option.splits)
  have 1: "distinct (map fst (get_activities col))"
    by (simp add: get_activities_def loop_distinct)
  have mem: "Some m \<in> name ` set col \<longleftrightarrow> find_one (rev col) m \<noteq> None" for m
    using find_one_None_iff [of "rev col" m] by simp
  have "fst ` set (get_activities col) = {m. map_of (get_activities col) m \<noteq> None}"
    by (simp add: dom_map_of_conv_image_fst [symmetric] dom_def)
  also have "\<dots> = {m. m \<noteq> [] \<and> Some m \<in> name ` set col}"
    by (auto simp: look mem)
  finally have 2: "set (map fst (get_activities col)) =
      {n. n \<noteq> [] \<and> Some n \<in> name ` set col}"
    by simp
  have 4: "get_activities (filter (\<lambda>d. name d \<noteq> None \<and> name d \<noteq> Some []) col) =
      get_activities col"
    unfolding get_activities_def by (rule loop_skips_unnamed)
  have 5: "info_of d =
     \<lparr>info_description = (case description d of None \<Rightarrow> [] | Some v \<Rightarrow> v),
      info_schedule = (case schedule d of None \<Rightarrow> [] | Some v \<Rightarrow> v),
      info_max_participants = (case max_participants d of None \<Rightarrow> 0 | Some v \<Rightarrow> v),
      info_participants = (case participants d of None \<Rightarrow> [] | Some v \<Rightarrow> v)\<rparr>"
    by (simp add: info_of_def get_description_def get_schedule_def
        get_max_participants_def get_participants_def)
  from 1 2 look [of n] 4 5 show ?thesis by blast
qed

text \<open>
  A collection of five documents: a Chess Club with no other field, a document with no
  name, a document with the empty name, a Math Club, and a second Chess Club with a
  description and one participant. The listing has two entries, the Chess Club's from
  the second of its documents.
\<close>

theorem get_activities_mapping_witness:
  "get_activities
     [\<lparr>name = Some ''Chess Club'', description = None, schedule = None,
       max_participants = None, participants = None\<rparr>,
      \<lparr>name = None, description = Some ''Lost'', schedule = None,
       max_participants = Some 3, participants = None\<rparr>,
      \<lparr>name = Some [], description = Some ''Unnamed'', schedule = None,
       max_participants = Some 4, participants = None\<rparr>,
      \<lparr>name = Some ''Math Club'', description = None, schedule = Some ''Tuesdays'',
       max_participants = Some 10, participants = None\<rparr>,
      \<lparr>name = Some ''Chess Club'', description = Some ''Chess'', schedule = None,
       max_participants = None, participants = Some [''michael@mergington.edu'']\<rparr>] =
     [(''Chess Club'', \<lparr>info_description = ''Chess'', info_schedule = [],
         info_max_participants = 0, info_participants = [''michael@mergington.edu'']\<rparr>),
      (''Math Club'', \<lparr>info_description = [], info_schedule = ''Tuesdays'',
         info_max_participants = 10, info_participants = []\<rparr>)] \<and>
   map_of (get_activities
     [\<lparr>name = Some ''Chess Club'', description = None, schedule = None,
       max_participants = None, participants = None\<rparr>,
      \<lparr>name = None, description = Some ''Lost'', schedule = None,
       max_participants = Some 3, participants = None\<rparr>,
      \<lparr>name = Some [], description = Some ''Unnamed'', schedule = None,
       max_participants = Some 4, participants = None\<rparr>,
      \<lparr>name = Some ''Math Club'', description = None, schedule = Some ''Tuesdays'',
       max_participants = Some 10, participants = None\<rparr>,
      \<lparr>name = Some ''Chess Club'', description = Some ''Chess'', schedule = None,
       max_participants = None, participants = Some [''michael@mergington.edu'']\<rparr>]) [] = None"
proof -
  let ?col = "[\<lparr>name = Some ''Chess Club'', description = None, schedule = None,
       max_participants = None, participants = None\<rparr>,
      \<lparr>name = None, description = Some ''Lost'', schedule = None,
       max_participants = Some 3, participants = None\<rparr>,
      \<lparr>name = Some [], description = Some ''Unnamed'', schedule = None,
       max_participants = Some 4, participants = None\<rparr>,
      \<lparr>name = Some ''Math Club'', description = None, schedule = Some ''Tuesdays'',
       max_participants = Some 10, participants = None\<rparr>,
      \<lparr>name = Some ''Chess Club'', description = Some ''Chess'', schedule = None,
       max_participants = None, participants = Some [''michael@mergington.edu'']\<rparr>]"
  have run: "get_activities ?col =
     [(''Chess Club'', \<lparr>info_description = ''Chess'', info_schedule = [],
         info_max_participants = 0, info_participants = [''michael@mergington.edu'']\<rparr>),
      (''Math Club'', \<lparr>info_description = [], info_schedule = ''Tuesdays'',
         info_max_participants = 10, info_participants = []\<rparr>)]"
    by (simp add: get_activities_def info_of_def get_description_def get_schedule_def
        get_max_participants_def get_participants_def)
  have "map_of (get_activities ?col) [] = None"
    using get_activities_mapping [of ?col "[]"] by simp
  with run show ?thesis by (rule conjI)
qed

section \<open>What a request writes\<close>

text \<open>
  A signup either returns the collection as it was, or it found an activity without the
  email and with room left, and returns the collection with the email pushed to that
  document. An unregister either returns the collection as it was, or it found an
  activity and returns the collection with the email pulled from that document.
\<close>

lemma signup_writes:
  assumes "snd (signup_for_activity n e col) \<noteq> col"
  shows "\<exists>pre a post. col = pre @ a # post \<and> find_one col n = Some a \<and>
           e \<notin> set (get_participants a) \<and>
           int (length (get_participants a)) < get_max_participants a \<and>
           snd (signup_for_activity n e col) = pre @ push e a # post"
proof (cases "find_one col n")
  case None
  with assms show ?thesis by (simp add: signup_for_activity_def)
next
  case (Some a)
  then obtain pre post where
    col: "col = pre @ a # post" and pre: "\<forall>d \<in> set pre. name d \<noteq> Some n"
    using find_one_split by blast
  from Some have "name a = Some n" by (rule find_one_name)
  with pre have upd: "update_one n (push e) col = pre @ push e a # post"
    unfolding col by (rule update_one_at)
  from assms Some have chk: "e \<notin> set (get_participants a) \<and>
      int (length (get_participants a)) < get_max_participants a"
    by (auto simp: signup_for_activity_def split: if_splits)
  with Some upd have "snd (signup_for_activity n e col) = pre @ push e a # post"
    by (simp add: signup_for_activity_def)
  with col Some chk show ?thesis by blast
qed

lemma unregister_writes:
  assumes "snd (unregister_from_activity n e col) \<noteq> col"
  shows "\<exists>pre a post. col = pre @ a # post \<and> find_one col n = Some a \<and>
           e \<in> set (get_participants a) \<and>
           snd (unregister_from_activity n e col) = pre @ pull e a # post"
proof (cases "find_one col n")
  case None
  with assms show ?thesis by (simp add: unregister_from_activity_def)
next
  case (Some a)
  then obtain pre post where
    col: "col = pre @ a # post" and pre: "\<forall>d \<in> set pre. name d \<noteq> Some n"
    using find_one_split by blast
  from Some have "name a = Some n" by (rule find_one_name)
  with pre have upd: "update_one n (pull e) col = pre @ pull e a # post"
    unfolding col by (rule update_one_at)
  from assms Some have chk: "e \<in> set (get_participants a)"
    by (auto simp: unregister_from_activity_def split: if_splits)
  with Some upd have "snd (unregister_from_activity n e col) = pre @ pull e a # post"
    by (simp add: unregister_from_activity_def)
  with col Some chk show ?thesis by blast
qed

subsection \<open>No email twice in an activity\<close>

lemma signup_no_duplicates:
  assumes "no_duplicates col"
  shows "no_duplicates (snd (signup_for_activity n e col))"
proof (cases "snd (signup_for_activity n e col) = col")
  case True
  with assms show ?thesis by simp
next
  case False
  then obtain pre a post where "col = pre @ a # post" "e \<notin> set (get_participants a)"
    "snd (signup_for_activity n e col) = pre @ push e a # post"
    using signup_writes by blast
  with assms show ?thesis by (auto simp: no_duplicates_def)
qed

lemma unregister_no_duplicates:
  assumes "no_duplicates col"
  shows "no_duplicates (snd (unregister_from_activity n e col))"
proof (cases "snd (unregister_from_activity n e col) = col")
  case True
  with assms show ?thesis by simp
next
  case False
  then obtain pre a post where "col = pre @ a # post"
    "snd (unregister_from_activity n e col) = pre @ pull e a # post"
    using unregister_writes by blast
  with assms show ?thesis by (auto simp: no_duplicates_def)
qed

lemma run_no_duplicates: "no_duplicates col \<Longrightarrow> no_duplicates (run reqs col)"
proof (induction reqs arbitrary: col)
  case Nil
  then show ?case by simp
next
  case (Cons r reqs)
  from Cons.prems have "no_duplicates (snd (handle r col))"
    by (cases r) (simp_all add: signup_no_duplicates unregister_no_duplicates)
  then show ?case by (simp add: Cons.IH)
qed

lemma seeded_no_duplicates: "no_duplicates (seed_activities_if_empty [])"
  by (simp add: no_duplicates_def seed_activities_if_empty_def count_documents_def
      insert_many_def INITIAL_ACTIVITIES_def get_participants_def)

text \<open>
  C8. In the seeded collection and in every collection that a sequence of signup and
  unregister requests makes of it, no activity has an email twice among its
  participants. Signup rejects an email that the activity already has, and each of the
  two operations, from any collection without such duplicates, returns a collection
  without them.
\<close>

theorem participants_stay_distinct:
  "no_duplicates (run reqs (seed_activities_if_empty [])) \<and>
   (\<forall>a. find_one col n = Some a \<and> e \<in> set (get_participants a) \<longrightarrow>
      signup_for_activity n e col =
        (Inl (HTTPException 400 ''Student is already signed up''), col)) \<and>
   (no_duplicates col \<longrightarrow>
      no_duplicates (snd (signup_for_activity n e col)) \<and>
      no_duplicates (snd (unregister_from_activity n e col)) \<and>
      no_duplicates (run reqs col))"
proof -
  have 1: "no_duplicates (run reqs (seed_activities_if_empty []))"
    using seeded_no_duplicates by (rule run_no_duplicates)
  have 2: "\<forall>a. find_one col n = Some a \<and> e \<in> set (get_participants a) \<longrightarrow>
      signup_for_activity n e col =
        (Inl (HTTPException 400 ''Student is already signed up''), col)"
    by (simp add: signup_for_activity_def)
  from 1 2 show ?thesis
    by (simp add: signup_no_duplicates unregister_no_duplicates run_no_duplicates)
qed

text \<open>
  On the seeded collection alice signs up for the Chess Club twice (the second request
  fails) and michael is unregistered: the Chess Club then has daniel and alice, once
  each.
\<close>

theorem participants_stay_distinct_witness:
  "no_duplicates (seed_activities_if_empty []) \<and>
   no_duplicates (run [Signup ''Chess Club'' ''alice@mergington.edu'',
                       Signup ''Chess Club'' ''alice@mergington.edu'',
                       Unregister ''Chess Club'' ''michael@mergington.edu'']
                    (seed_activities_if_empty [])) \<and>
   map_option get_participants
     (find_one (run [Signup ''Chess Club'' ''alice@mergington.edu'',
                     Signup ''Chess Club'' ''alice@mergington.edu'',
                     Unregister ''Chess Club'' ''michael@mergington.edu'']
                  (seed_activities_if_empty [])) ''Chess Club'') =
     Some [''daniel@mergington.edu'', ''alice@mergington.edu'']"
proof -
  let ?reqs = "[Signup ''Chess Club'' ''alice@mergington.edu'',
                Signup ''Chess Club'' ''alice@mergington.edu'',
                Unregister ''Chess Club'' ''michael@mergington.edu'']"
  have 1: "no_duplicates (run [] (seed_activities_if_empty []))"
    using participants_stay_distinct [of "[]"] by (rule conjunct1)
  have 2: "no_duplicates (run ?reqs (seed_activities_if_empty []))"
    using participants_stay_distinct [of ?reqs] by (rule conjunct1)
  have 3: "map_option get_participants
     (find_one (run ?reqs (seed_activities_if_empty [])) ''Chess Club'') =
     Some [''daniel@mergington.edu'', ''alice@mergington.edu'']"
    by (simp add: seed_activities_if_empty_def count_documents_def insert_many_def
        INITIAL_ACTIVITIES_def signup_for_activity_def unregister_from_activity_def
        get_participants_def get_max_participants_def push_def pull_def)
  from 1 2 3 show ?thesis by simp
qed

subsection \<open>No activity beyond its capacity\<close>

lemma signup_within_capacity:
  assumes "within_capacity col"
  shows "within_capacity (snd (signup_for_activity n e col))"
proof (cases "snd (signup_for_activity n e col) = col")
  case True
  with assms show ?thesis by simp
next
  case False
  then obtain pre a post where "col = pre @ a # post"
    "int (length (get_participants a)) < get_max_participants a"
    "snd (signup_for_activity n e col) = pre @ push e a # post"
    using signup_writes by blast
  with assms show ?thesis by (auto simp: within_capacity_def)
qed

lemma unregister_shortens:
  "list_all2 (\<lambda>d' d. length (get_participants d') \<le> length (get_participants d))
     (snd (unregister_from_activity n e col)) col"
proof (cases "snd (unregister_from_activity n e col) = col")
  case True
  then show ?thesis by (simp add: list_all2_same)
next
  case False
  then obtain pre a post where "col = pre @ a # post"
    "snd (unregister_from_activity n e col) = pre @ pull e a # post"
    using unregister_writes by blast
  then show ?thesis by (simp add: list_all2_appendI list_all2_same)
qed

lemma unregister_within_capacity:
  assumes "within_capacity col"
  shows "within_capacity (snd (unregister_from_activity n e col))"
proof (cases "snd (unregister_from_activity n e col) = col")
  case True
  with assms show ?thesis by simp
next
  case False
  then obtain pre a post where col: "col = pre @ a # post" and
    res: "snd (unregister_from_activity n e col) = pre @ pull e a # post"
    using unregister_writes by blast
  have "int (length (filter (\<lambda>p. p \<noteq> e) (get_participants a))) \<le>
      int (length (get_participants a))"
    by simp
  moreover from assms col have "int (length (get_participants a)) \<le> get_max_participants a"
    by (simp add: within_capacity_def)
  ultimately have "int (length (filter (\<lambda>p. p \<noteq> e) (get_participants a))) \<le>
      get_max_participants a"
    by (rule order_trans)
  then have "int (length (get_participants (pull e a))) \<le> get_max_participants (pull e a)"
    by simp
  with assms col res show ?thesis by (auto simp: within_capacity_def)
qed

lemma run_within_capacity: "within_capacity col \<Longrightarrow> within_capacity (run reqs col)"
proof (induction reqs arbitrary: col)
  case Nil
  then show ?case by simp
next
  case (Cons r reqs)
  from Cons.prems have "within_capacity (snd (handle r col))"
    by (cases r) (simp_all add: signup_within_capacity unregister_within_capacity)
  then show ?case by (simp add: Cons.IH)
qed

text \<open>
  C9. The seeded collection has no activity with more participants than its capacity,
  and from any collection of which this is true a signup, an unregister, and any
  sequence of them returns a collection of which it is true. Signup writes only when the
  found activity has fewer participants than its capacity, and unregister leaves no
  participants list longer than it was.
\<close>

theorem capacity_bound_preserved:
  "within_capacity (seed_activities_if_empty []) \<and>
   (within_capacity col \<longrightarrow>
      within_capacity (snd (signup_for_activity n e col)) \<and>
      within_capacity (snd (unregister_from_activity n e col)) \<and>
      within_capacity (run reqs col)) \<and>
   (snd (signup_for_activity n e col) \<noteq> col \<longrightarrow>
      (\<exists>a. find_one col n = Some a \<and>
           int (length (get_participants a)) < get_max_participants a)) \<and>
   list_all2 (\<lambda>d' d. length (get_participants d') \<le> length (get_participants d))
     (snd (unregister_from_activity n e col)) col"
proof -
  have 1: "within_capacity (seed_activities_if_empty [])"
    by (simp add: within_capacity_def seed_activities_if_empty_def count_documents_def
        insert_many_def INITIAL_ACTIVITIES_def get_participants_def get_max_participants_def)
  have 3: "snd (signup_for_activity n e col) \<noteq> col \<longrightarrow>
      (\<exists>a. find_one col n = Some a \<and>
           int (length (get_participants a)) < get_max_participants a)"
    using signup_writes [of n e col] by blast
  from 1 3 show ?thesis
    by (simp add: signup_within_capacity unregister_within_capacity run_within_capacity
        unregister_shortens)
qed

text \<open>
  A club of capacity 2 with one member: bob's signup fills it, carol's is refused with
  "No spots available", and after bob is unregistered there is room again. The bound
  holds before and after the four requests.
\<close>

theorem capacity_bound_preserved_witness:
  "within_capacity
     [\<lparr>name = Some ''Math Club'', description = None, schedule = None,
       max_participants = Some 2, participants = Some [''james@mergington.edu'']\<rparr>] \<and>
   within_capacity
     (run [Signup ''Math Club'' ''bob@mergington.edu'',
           Signup ''Math Club'' ''carol@mergington.edu'',
           Unregister ''Math Club'' ''bob@mergington.edu'',
           Signup ''Math Club'' ''carol@mergington.edu'']
        [\<lparr>name = Some ''Math Club'', description = None, schedule = None,
          max_participants = Some 2, participants = Some [''james@mergington.edu'']\<rparr>]) \<and>
   run [Signup ''Math Club'' ''bob@mergington.edu'',
        Signup ''Math Club'' ''carol@mergington.edu'']
     [\<lparr>name = Some ''Math Club'', description = None, schedule = None,
       max_participants = Some 2, participants = Some [''james@mergington.edu'']\<rparr>] =
     [\<lparr>name = Some ''Math Club'', description = None, schedule = None,
       max_participants = Some 2,
       participants = Some [''james@mergington.edu'', ''bob@mergington.edu'']\<rparr>] \<and>
   fst (signup_for_activity ''Math Club'' ''carol@mergington.edu''
     [\<lparr>name = Some ''Math Club'', description = None, schedule = None,
       max_participants = Some 2,
       participants = Some [''james@mergington.edu'', ''bob@mergington.edu'']\<rparr>]) =
     Inl (HTTPException 400 ''No spots available'') \<and>
   run [Signup ''Math Club'' ''bob@mergington.edu'',
        Signup ''Math Club'' ''carol@mergington.edu'',
        Unregister ''Math Club'' ''bob@mergington.edu'',
        Signup ''Math Club'' ''carol@mergington.edu'']
     [\<lparr>name = Some ''Math Club'', description = None, schedule = None,
       max_participants = Some 2, participants = Some [''james@mergington.edu'']\<rparr>] =
     [\<lparr>name = Some ''Math Club'', description = None, schedule = None,
       max_participants = Some 2,
       participants = Some [''james@mergington.edu'', ''carol@mergington.edu'']\<rparr>]"
proof -
  let ?col = "[\<lparr>name = Some ''Math Club'', description = None, schedule = None,
       max_participants = Some 2, participants = Some [''james@mergington.edu'']\<rparr>]"
  let ?reqs = "[Signup ''Math Club'' ''bob@mergington.edu'',
           Signup ''Math Club'' ''carol@mergington.edu'',
           Unregister ''Math Club'' ''bob@mergington.edu'',
           Signup ''Math Club'' ''carol@mergington.edu'']"
  note defs = signup_for_activity_def unregister_from_activity_def get_participants_def
    get_max_participants_def push_def pull_def
  have h: "within_capacity ?col"
    by (simp add: within_capacity_def get_participants_def get_max_participants_def)
  have 2: "within_capacity (run ?reqs ?col)"
    using capacity_bound_preserved [of ?col "''Math Club''" "''bob@mergington.edu''" ?reqs] h
    by blast
  have 3: "run [Signup ''Math Club'' ''bob@mergington.edu'',
        Signup ''Math Club'' ''carol@mergington.edu''] ?col =
     [\<lparr>name = Some ''Math Club'', description = None, schedule = None,
       max_participants = Some 2,
       participants = Some [''james@mergington.edu'', ''bob@mergington.edu'']\<rparr>]"
    by (simp add: defs)
  have 4: "fst (signup_for_activity ''Math Club'' ''carol@mergington.edu''
     [\<lparr>name = Some ''Math Club'', description = None, schedule = None,
       max_participants = Some 2,
       participants = Some [''james@mergington.edu'', ''bob@mergington.edu'']\<rparr>]) =
     Inl (HTTPException 400 ''No spots available'')"
    by (simp add: defs)
  have 5: "run ?reqs ?col =
     [\<lparr>name = Some ''Math Club'', description = None, schedule = None,
       max_participants = Some 2,
       participants = Some [''james@mergington.edu'', ''carol@mergington.edu'']\<rparr>]"
    by (simp add: defs)
  from h 2 3 4 5 show ?thesis by blast
qed

section \<open>Signup, then unregister\<close>

text \<open>
  C10. When the named activity exists, the email is not among its participants and there
  is room, the signup succeeds, the unregister of the same email from the same activity
  that follows it succeeds too, and afterwards the activity has exactly the participants
  it had, in their order. So has every other document; the collection as a whole is the
  one before the signup, but for the participants field of the activity, which is now
  present (with the same, empty, list) where it was absent before.
\<close>

theorem signup_then_unregister:
  assumes "find_one col n = Some a"
    and "e \<notin> set (get_participants a)"
    and "int (length (get_participants a)) < get_max_participants a"
  shows "\<exists>col1 col2 a2.
           signup_for_activity n e col = (Inr (''Signed up '' @ e @ '' for '' @ n), col1) \<and>
           unregister_from_activity n e col1 =
             (Inr (''Unregistered '' @ e @ '' from '' @ n), col2) \<and>
           find_one col2 n = Some a2 \<and>
           get_participants a2 = get_participants a \<and>
           a2 = a\<lparr>participants := Some (get_participants a)\<rparr> \<and>
           map get_participants col2 = map get_participants col \<and>
           (participants a \<noteq> None \<longrightarrow> col2 = col)"
proof -
  from assms(1) obtain pre post where
    col: "col = pre @ a # post" and pre: "\<forall>d \<in> set pre. name d \<noteq> Some n"
    using find_one_split by blast
  have nm: "name a = Some n"
    using assms(1) by (rule find_one_name)
  let ?a1 = "push e a"
  let ?col1 = "pre @ ?a1 # post"
  let ?a2 = "pull e ?a1"
  let ?col2 = "pre @ ?a2 # post"
  have nm1: "name ?a1 = Some n"
    using nm by simp
  have "update_one n (push e) col = ?col1"
    unfolding col using pre nm by (rule update_one_at)
  with assms have s: "signup_for_activity n e col =
      (Inr (''Signed up '' @ e @ '' for '' @ n), ?col1)"
    by (simp add: signup_for_activity_def)
  have f1: "find_one ?col1 n = Some ?a1"
    using pre nm1 by (rule find_one_at)
  have "update_one n (pull e) ?col1 = ?col2"
    using pre nm1 by (rule update_one_at)
  with f1 have u: "unregister_from_activity n e ?col1 =
      (Inr (''Unregistered '' @ e @ '' from '' @ n), ?col2)"
    by (simp add: unregister_from_activity_def)
  have "name ?a2 = Some n"
    using nm by simp
  with pre have f2: "find_one ?col2 n = Some ?a2"
    by (rule find_one_at)
  have same: "filter (\<lambda>p. p \<noteq> e) (get_participants a) = get_participants a"
    using assms(2) by (auto simp: filter_id_conv)
  then have ps: "get_participants ?a2 = get_participants a"
    by simp
  have a2: "?a2 = a\<lparr>participants := Some (get_participants a)\<rparr>"
    using same by (simp add: push_def pull_def get_participants_def split: option.splits)
  have m: "map get_participants ?col2 = map get_participants col"
    unfolding col using ps by simp
  have restored: "participants a \<noteq> None \<longrightarrow> ?col2 = col"
    unfolding col a2 by (auto simp: get_participants_def)
  from s u f2 ps a2 m restored show ?thesis by blast
qed

text \<open>
  Alice signs up for the seeded Chess Club and is unregistered again: the collection is
  the seeded one.
\<close>

theorem signup_then_unregister_witness:
  "fst (signup_for_activity ''Chess Club'' ''alice@mergington.edu'' INITIAL_ACTIVITIES) =
     Inr ''Signed up alice@mergington.edu for Chess Club'' \<and>
   unregister_from_activity ''Chess Club'' ''alice@mergington.edu''
     (snd (signup_for_activity ''Chess Club'' ''alice@mergington.edu'' INITIAL_ACTIVITIES)) =
     (Inr ''Unregistered alice@mergington.edu from Chess Club'', INITIAL_ACTIVITIES)"
proof -
  let ?a = "hd INITIAL_ACTIVITIES"
  have h1: "find_one INITIAL_ACTIVITIES ''Chess Club'' = Some ?a"
    by (simp add: INITIAL_ACTIVITIES_def)
  have ps: "get_participants ?a = [''michael@mergington.edu'', ''daniel@mergington.edu'']"
    by (simp add: INITIAL_ACTIVITIES_def get_participants_def)
  have h2: "''alice@mergington.edu'' \<notin> set (get_participants ?a)"
    unfolding ps by simp
  have h3: "int (length (get_participants ?a)) < get_max_participants ?a"
    unfolding ps by (simp add: INITIAL_ACTIVITIES_def get_max_participants_def)
  have present: "participants ?a \<noteq> None"
    by (simp add: INITIAL_ACTIVITIES_def)
  from signup_then_unregister [OF h1 h2 h3] present obtain col1 where
    "signup_for_activity ''Chess Club'' ''alice@mergington.edu'' INITIAL_ACTIVITIES =
       (Inr (''Signed up '' @ ''alice@mergington.edu'' @ '' for '' @ ''Chess Club''), col1)"
    "unregister_from_activity ''Chess Club'' ''alice@mergington.edu'' col1 =
       (Inr (''Unregistered '' @ ''alice@mergington.edu'' @ '' from '' @ ''Chess Club''),
        INITIAL_ACTIVITIES)"
    by metis
  then show ?thesis by simp
qed

end
